theory Spec2Isabelle
  imports Main
begin

section \<open>The asynchronous logger of \<^verbatim>\<open>Logger.hpp\<close> (namespace \<^verbatim>\<open>bb::core\<close>)\<close>

text \<open>
  The header defines one class, \<^verbatim>\<open>Logger\<close>: log calls render a message on the caller's
  thread and push a record onto a queue; one worker thread pops the records and writes
  them; the destructor drains what is left. The embedding below follows the header
  member by member. Three things come from outside the header and are parameters of the
  model (the record \<open>env\<close>): the standard library's \<^verbatim>\<open>std::vformat\<close>, the clock read by
  \<^verbatim>\<open>std::ctime\<close>, and the file system that decides whether \<^verbatim>\<open>_logFile.open\<close> succeeds.
  Output is modelled as the trace of what reaches the two sinks, in order: the text
  \<^verbatim>\<open>std::print\<close> sends to the console and the text \<^verbatim>\<open>_logFile <<\<close> appends to the file. The
  stream \<^verbatim>\<open>_logFile\<close> carries its error state: an insertion into a stream that is not good
  writes nothing.
\<close>

subsection \<open>Colour constants\<close>

definition ESC :: char where
  "ESC = CHR 0x1B"

definition COLOR_GREY :: string where
  "COLOR_GREY = ESC # ''[90m''"

definition COLOR_BLUE :: string where
  "COLOR_BLUE = ESC # ''[34m''"

definition COLOR_GREEN :: string where
  "COLOR_GREEN = ESC # ''[32m''"

definition COLOR_YELLOW :: string where
  "COLOR_YELLOW = ESC # ''[33m''"

definition COLOR_RED :: string where
  "COLOR_RED = ESC # ''[31m''"

definition COLOR_FATAL :: string where
  "COLOR_FATAL = ESC # ''[41;97m''"

definition COLOR_RESET :: string where
  "COLOR_RESET = ESC # ''[0m''"

subsection \<open>Data\<close>

datatype LogLevel = Trace | Debug | Info | Warn | Error | Fatal | Off

text \<open>The enumerators' values; \<^verbatim>\<open>level < _level\<close> compares them.\<close>

fun level_num :: "LogLevel \<Rightarrow> nat" where
  "level_num Trace = 0"
| "level_num Debug = 1"
| "level_num Info = 2"
| "level_num Warn = 3"
| "level_num Error = 4"
| "level_num Fatal = 5"
| "level_num Off = 6"

text \<open>\<^verbatim>\<open>std::source_location\<close>: the fields the logger reads.\<close>

record source_location =
  file_name :: string
  line :: nat
  function_name :: string

record LogMessage =
  msg_level :: LogLevel
  msg_where :: source_location
  msg_message :: string
  msg_toFile :: bool

text \<open>One write that reaches a sink: standard output, or the log file.\<close>

datatype io_event = Print string | FileWrite string

text \<open>
  The members of \<^verbatim>\<open>Logger\<close> (\<open>m_x\<close> is the member \<^verbatim>\<open>_x\<close>). The stream \<^verbatim>\<open>_logFile\<close> is its two
  observable flags: \<open>m_logFile_open\<close> is \<^verbatim>\<open>is_open()\<close>, and \<open>m_logFile_fail\<close> holds when the
  stream is not \<^verbatim>\<open>good()\<close> (\<^verbatim>\<open>failbit\<close> or \<^verbatim>\<open>badbit\<close> is set). \<open>m_out\<close> is the trace of writes so
  far. The mutexes and the condition variable have no sequential content; the worker
  thread is modelled in the last subsection of the definitions.
\<close>

record logger =
  m_logFile_open :: bool
  m_logFile_fail :: bool
  m_logToFile :: bool
  m_logPath :: string
  m_level :: LogLevel
  m_logQ :: "LogMessage list"
  m_running :: bool
  m_out :: "io_event list"

definition Logger_init :: logger where
  "Logger_init = \<lparr> m_logFile_open = False, m_logFile_fail = False, m_logToFile = False, m_logPath = ''./log.txt'',
     m_level = Trace, m_logQ = [], m_running = True, m_out = [] \<rparr>"

text \<open>
  A call of a \<^verbatim>\<open>noexcept\<close> function either returns, or an exception reaches its
  boundary and \<^verbatim>\<open>std::terminate\<close> ends the process.
\<close>

datatype 'a outcome = Returned 'a | Terminated

fun map_outcome :: "('a \<Rightarrow> 'b) \<Rightarrow> 'a outcome \<Rightarrow> 'b outcome" where
  "map_outcome f (Returned x) = Returned (f x)"
| "map_outcome f Terminated = Terminated"

fun queued :: "logger outcome \<Rightarrow> LogMessage list" where
  "queued (Returned s) = m_logQ s"
| "queued Terminated = []"

datatype format_error = FormatError

text \<open>
  What the header takes from its environment: \<open>vformat\<close> is \<^verbatim>\<open>std::vformat\<close> on the
  template and the argument pack (\<open>Inl\<close>: it throws \<^verbatim>\<open>std::format_error\<close>); \<open>ctime_now\<close> is
  the string \<^verbatim>\<open>std::ctime\<close> gives for the current time; \<open>can_open\<close> tells whether a path
  can be opened for appending; \<open>here_LogToFile\<close> and \<open>here_EnableFileLogging\<close> are the
  values of \<^verbatim>\<open>std::source_location::current()\<close> inside those two members.
\<close>

record 'a env =
  vformat :: "string \<Rightarrow> 'a list \<Rightarrow> format_error + string"
  ctime_now :: string
  can_open :: "string \<Rightarrow> bool"
  here_LogToFile :: source_location
  here_EnableFileLogging :: source_location

subsection \<open>C library functions used by \<^verbatim>\<open>format\<close>\<close>

text \<open>
  \<^verbatim>\<open>strstr(h, n)\<close>: the suffix of \<open>h\<close> that starts at the first occurrence of \<open>n\<close>;
  \<^verbatim>\<open>strrchr(h, c)\<close>: the suffix that starts at the last occurrence of \<open>c\<close>; \<open>None\<close> is the
  null pointer.
\<close>

fun strstr :: "string \<Rightarrow> string \<Rightarrow> string option" where
  "strstr [] n = (if n = [] then Some [] else None)"
| "strstr (c # cs) n = (if take (length n) (c # cs) = n then Some (c # cs) else strstr cs n)"

fun strrchr :: "string \<Rightarrow> char \<Rightarrow> string option" where
  "strrchr [] c = None"
| "strrchr (x # xs) c =
     (case strrchr xs c of
        Some r \<Rightarrow> Some r
      | None \<Rightarrow> if x = c then Some (x # xs) else None)"

text \<open>Decimal rendering of an unsigned integer, as \<^verbatim>\<open>{}\<close> renders \<^verbatim>\<open>where.line()\<close>.\<close>

definition digit_char :: "nat \<Rightarrow> char" where
  "digit_char d = char_of (48 + d)"

fun show_nat :: "nat \<Rightarrow> string" where
  "show_nat n = (if n < 10 then [digit_char n] else show_nat (n div 10) @ [digit_char (n mod 10)])"

declare show_nat.simps [simp del]

subsection \<open>The private helpers\<close>

fun toString :: "LogLevel \<Rightarrow> string" where
  "toString Trace = ''TRACE''"
| "toString Debug = ''DEBUG''"
| "toString Info = ''INFO''"
| "toString Warn = ''WARN''"
| "toString Error = ''ERROR''"
| "toString Fatal = ''FATAL''"
| "toString Off = ''''"

fun LevelColour :: "LogLevel \<Rightarrow> string" where
  "LevelColour Trace = COLOR_GREY"
| "LevelColour Debug = COLOR_BLUE"
| "LevelColour Info = COLOR_GREEN"
| "LevelColour Warn = COLOR_YELLOW"
| "LevelColour Error = COLOR_RED"
| "LevelColour Fatal = COLOR_FATAL"
| "LevelColour Off = COLOR_RESET"

text \<open>
  The pointer \<open>p\<close> of \<^verbatim>\<open>format\<close>: \<^verbatim>\<open>strstr(full, "src/")\<close> when that is not null, else the
  character after the last \<^verbatim>\<open>'/'\<close>, else \<open>full\<close>.
\<close>

definition shortFile :: "string \<Rightarrow> string" where
  "shortFile full =
     (case strstr full ''src/'' of
        Some p \<Rightarrow> p
      | None \<Rightarrow> (case strrchr full (CHR ''/'') of Some slash \<Rightarrow> tl slash | None \<Rightarrow> full))"

definition quote :: string where
  "quote = [CHR 0x27]"

definition newline :: string where
  "newline = [CHR 0x0A]"

text \<open>The two \<^verbatim>\<open>std::format\<close> calls of \<^verbatim>\<open>format\<close>, on an already rendered payload.\<close>

definition file_form :: "string \<Rightarrow> LogLevel \<Rightarrow> source_location \<Rightarrow> string \<Rightarrow> string" where
  "file_form nowTimeStr level wh payload =
     ''['' @ nowTimeStr @ ''] - ['' @ toString level @ ''] '' @ shortFile (file_name wh) @ '':''
     @ show_nat (line wh) @ '' in function '' @ quote @ function_name wh @ quote @ '': ''
     @ payload @ newline"

definition console_form :: "LogLevel \<Rightarrow> source_location \<Rightarrow> string \<Rightarrow> string" where
  "console_form level wh payload =
     LevelColour level @ ''['' @ toString level @ ''] '' @ shortFile (file_name wh) @ '':''
     @ show_nat (line wh) @ '' in function '' @ COLOR_RESET @ quote @ function_name wh @ quote
     @ LevelColour level @ '': '' @ payload @ COLOR_RESET @ newline"

text \<open>
  \<^verbatim>\<open>format\<close> is \<^verbatim>\<open>noexcept\<close> and calls \<^verbatim>\<open>std::vformat\<close> first, outside any \<^verbatim>\<open>try\<close>: when
  that throws, the process terminates. \<^verbatim>\<open>std::erase(nowTimeStr, '\n')\<close> drops every line
  break of the time string.
\<close>

definition format :: "'a env \<Rightarrow> LogLevel \<Rightarrow> source_location \<Rightarrow> string \<Rightarrow> bool \<Rightarrow> 'a list
    \<Rightarrow> string outcome" where
  "format e level wh fmt logToFile args =
     (case vformat e fmt args of
        Inl err \<Rightarrow> Terminated
      | Inr payload \<Rightarrow>
          if logToFile
          then Returned (file_form (filter (\<lambda>c. c \<noteq> CHR 0x0A) (ctime_now e)) level wh payload)
          else Returned (console_form level wh payload))"

definition pushToQ :: "logger \<Rightarrow> LogMessage \<Rightarrow> logger" where
  "pushToQ s msg = s\<lparr> m_logQ := m_logQ s @ [msg] \<rparr>"

subsection \<open>The file stream\<close>

text \<open>
  The three operations the header applies to \<^verbatim>\<open>_logFile\<close>, as the C++ standard defines them
  for \<^verbatim>\<open>std::fstream\<close>.

  \<^verbatim>\<open>open\<close>: on a stream that is already open the underlying \<^verbatim>\<open>filebuf::open\<close> returns null,
  so \<^verbatim>\<open>failbit\<close> is set and the stream stays open; otherwise the file is opened, which
  clears the error state on success and sets \<^verbatim>\<open>failbit\<close> on failure. The argument tells
  whether the file system lets the path be opened.

  \<^verbatim>\<open>close\<close>: the header calls it on an open stream only; the error state is kept.

  \<^verbatim>\<open>operator<<\<close>: the insertion starts with a sentry, and a stream that is not good
  inserts nothing; an insertion into a good stream with no open file fails and sets
  \<^verbatim>\<open>badbit\<close>. A write to a good, open stream is taken to succeed.
\<close>

definition fstream_open :: "bool \<Rightarrow> logger \<Rightarrow> logger" where
  "fstream_open ok s =
     (if m_logFile_open s then s\<lparr> m_logFile_fail := True \<rparr>
      else if ok then s\<lparr> m_logFile_open := True, m_logFile_fail := False \<rparr>
      else s\<lparr> m_logFile_fail := True \<rparr>)"

definition fstream_close :: "logger \<Rightarrow> logger" where
  "fstream_close s = s\<lparr> m_logFile_open := False \<rparr>"

definition fstream_write :: "string \<Rightarrow> logger \<Rightarrow> logger" where
  "fstream_write txt s =
     (if m_logFile_fail s then s
      else if m_logFile_open s then s\<lparr> m_out := m_out s @ [FileWrite txt] \<rparr>
      else s\<lparr> m_logFile_fail := True \<rparr>)"

subsection \<open>The public members\<close>

definition SetLevel :: "LogLevel \<Rightarrow> logger \<Rightarrow> logger" where
  "SetLevel lvl s = s\<lparr> m_level := lvl \<rparr>"

definition SetLogfilePath :: "string \<Rightarrow> logger \<Rightarrow> logger" where
  "SetLogfilePath path s = s\<lparr> m_logPath := path \<rparr>"

definition Log :: "'a env \<Rightarrow> logger \<Rightarrow> LogLevel \<Rightarrow> source_location \<Rightarrow> string \<Rightarrow> 'a list
    \<Rightarrow> logger outcome" where
  "Log e s level wh fmt args =
     (if level_num level < level_num (m_level s) then Returned s
      else (case format e level wh fmt False args of
              Terminated \<Rightarrow> Terminated
            | Returned out \<Rightarrow>
                Returned (pushToQ s \<lparr> msg_level = level, msg_where = wh, msg_message = out,
                                      msg_toFile = False \<rparr>)))"

definition LogToFile :: "'a env \<Rightarrow> logger \<Rightarrow> LogLevel \<Rightarrow> source_location \<Rightarrow> string \<Rightarrow> 'a list
    \<Rightarrow> logger outcome" where
  "LogToFile e s level wh fmt args =
     (if \<not> m_logToFile s
      then Log e s Warn (here_LogToFile e)
             ''cannot log to file if it was not previously enabled'' []
      else (case format e level wh fmt True args of
              Terminated \<Rightarrow> Terminated
            | Returned out \<Rightarrow>
                Returned (pushToQ s \<lparr> msg_level = level, msg_where = wh, msg_message = out,
                                      msg_toFile = True \<rparr>)))"

text \<open>
  \<^verbatim>\<open>EnableFileLogging\<close> opens the stream without asking whether it is open already, and
  then tests \<^verbatim>\<open>is_open()\<close> only.
\<close>

definition EnableFileLogging :: "'a env \<Rightarrow> bool \<Rightarrow> logger \<Rightarrow> logger outcome" where
  "EnableFileLogging e enable s =
     (if enable then
        (let s1 = fstream_open (can_open e (m_logPath s)) s
         in if \<not> m_logFile_open s1
            then map_outcome (\<lambda>s2. s2\<lparr> m_logToFile := False \<rparr>)
                   (Log e s1 Error (here_EnableFileLogging e) ''Failed to open file'' [])
            else Returned (s1\<lparr> m_logToFile := enable \<rparr>))
      else
        (let s1 = (if m_logFile_open s then fstream_close s else s)
         in Returned (s1\<lparr> m_logToFile := enable \<rparr>)))"


subsection \<open>The worker thread and the destructor\<close>

text \<open>
  The body of the worker's inner loop: pop the front record, append it to the file
  when it is flagged for the file and file logging is on and the stream is open, then
  print it in every case. The loop runs the body while the queue is not empty.
\<close>

definition worker_body :: "logger \<Rightarrow> logger" where
  "worker_body s =
     (case m_logQ s of
        [] \<Rightarrow> s
      | msg # q \<Rightarrow>
          (let s1 = s\<lparr> m_logQ := q \<rparr>;
               s2 = (if msg_toFile msg \<and> m_logToFile s1 \<and> m_logFile_open s1
                     then fstream_write (msg_message msg) s1 else s1)
           in s2\<lparr> m_out := m_out s2 @ [Print (msg_message msg)] \<rparr>))"

function worker_inner :: "logger \<Rightarrow> logger" where
  "worker_inner s = (if m_logQ s = [] then s else worker_inner (worker_body s))"
  by pat_completeness auto
termination
  by (relation "measure (\<lambda>s. length (m_logQ s))")
     (auto simp: worker_body_def fstream_write_def Let_def split: list.splits)

declare worker_inner.simps [simp del]

text \<open>
  The destructor's own loop: the same pop, but the record goes to the file or else to
  the console.
\<close>

definition dtor_body :: "logger \<Rightarrow> logger" where
  "dtor_body s =
     (case m_logQ s of
        [] \<Rightarrow> s
      | msg # q \<Rightarrow>
          (let s1 = s\<lparr> m_logQ := q \<rparr>
           in if msg_toFile msg \<and> m_logToFile s1 \<and> m_logFile_open s1
              then fstream_write (msg_message msg) s1
              else s1\<lparr> m_out := m_out s1 @ [Print (msg_message msg)] \<rparr>))"

function dtor_drain :: "logger \<Rightarrow> logger" where
  "dtor_drain s = (if m_logQ s = [] then s else dtor_drain (dtor_body s))"
  by pat_completeness auto
termination
  by (relation "measure (\<lambda>s. length (m_logQ s))")
     (auto simp: dtor_body_def fstream_write_def Let_def split: list.splits)

declare dtor_drain.simps [simp del]

text \<open>
  The worker thread runs \<^verbatim>\<open>while (_running.load()) { lock; _cv.wait(lock, pred); inner loop }\<close>
  with \<^verbatim>\<open>pred\<close> = queue not empty or not running. The destructor stores \<^verbatim>\<open>_running = false\<close>
  and calls \<^verbatim>\<open>notify_all\<close> without holding \<^verbatim>\<open>_qMutex\<close>, then joins. What the join yields
  depends on where the worker stands at the store (no other thread logs during
  teardown):

  \<^item> \<open>AtLoopHead\<close>: about to read \<^verbatim>\<open>_running\<close> in the outer loop; it reads false and leaves
    at once, the queue untouched.
  \<^item> \<open>PastLoopHead\<close>: blocked in the wait, or inside the inner loop; it is woken (or goes
    on), empties the queue and then leaves.
  \<^item> \<open>PredicateTested\<close>: it has just evaluated \<^verbatim>\<open>pred\<close> to false (queue empty, still
    running) and has not blocked yet; the store and the notification fall into that
    window, the notification finds no waiter, the worker blocks and is never woken:
    the join does not return (\<open>None\<close>).
\<close>

datatype worker_pos = AtLoopHead | PastLoopHead | PredicateTested

fun join_worker :: "worker_pos \<Rightarrow> logger \<Rightarrow> logger option" where
  "join_worker AtLoopHead s = Some s"
| "join_worker PastLoopHead s = Some (worker_inner s)"
| "join_worker PredicateTested s = None"

text \<open>The destructor; \<open>None\<close>: it never returns.\<close>

definition destructor :: "worker_pos \<Rightarrow> logger \<Rightarrow> logger option" where
  "destructor pos s =
     (case join_worker pos (s\<lparr> m_running := False \<rparr>) of
        None \<Rightarrow> None
      | Some s2 \<Rightarrow>
          (let s3 = dtor_drain s2
           in Some (if m_logFile_open s3 then fstream_close s3 else s3)))"

subsection \<open>A concrete environment\<close>

text \<open>
  \<^verbatim>\<open>std::vformat\<close> on string arguments, for templates built from plain characters, the
  escapes \<^verbatim>\<open>{{\<close> and \<^verbatim>\<open>}}\<close> and the automatic field \<^verbatim>\<open>{}\<close>: a field takes the next
  argument and the call throws when none is left or a brace is unmatched. Fields with an
  index or a format specification are not in this fragment (they are rejected here);
  the general theorems below hold for every \<open>vformat\<close>, and this one only supplies
  concrete inputs.
\<close>

fun vformat_auto :: "string \<Rightarrow> string list \<Rightarrow> format_error + string" where
  "vformat_auto [] args = Inr []"
| "vformat_auto [c] args = (if c = CHR ''{'' \<or> c = CHR ''}'' then Inl FormatError else Inr [c])"
| "vformat_auto (c # d # cs) args =
     (if c = CHR ''{'' then
        (if d = CHR ''{'' then map_sum id ((#) c) (vformat_auto cs args)
         else if d = CHR ''}'' then
           (case args of
              [] \<Rightarrow> Inl FormatError
            | a # as \<Rightarrow> map_sum id ((@) a) (vformat_auto cs as))
         else Inl FormatError)
      else if c = CHR ''}'' then
        (if d = CHR ''}'' then map_sum id ((#) c) (vformat_auto cs args) else Inl FormatError)
      else map_sum id ((#) c) (vformat_auto (d # cs) args))"

definition env0 :: "string env" where
  "env0 = \<lparr> vformat = vformat_auto,
            ctime_now = ''Mon Nov  2 04:13:00 2026'' @ [CHR 0x0A],
            can_open = (\<lambda>path. False),
            here_LogToFile = \<lparr> file_name = ''/proj/src/Logger.hpp'', line = 83,
                               function_name = ''LogToFile'' \<rparr>,
            here_EnableFileLogging = \<lparr> file_name = ''/proj/src/Logger.hpp'', line = 67,
                                       function_name = ''EnableFileLogging'' \<rparr> \<rparr>"

definition w0 :: source_location where
  "w0 = \<lparr> file_name = ''/home/u/proj/src/foo/bar.ext'', line = 7, function_name = ''main'' \<rparr>"

text \<open>The same environment with a file system that lets every path be opened.\<close>

definition env1 :: "string env" where
  "env1 = env0\<lparr> can_open := (\<lambda>path. True) \<rparr>"


subsection \<open>Vocabulary of the statements\<close>

text \<open>\<open>occurs n h\<close>: the string \<open>n\<close> occurs in \<open>h\<close> as a run of consecutive characters.\<close>

fun occurs :: "string \<Rightarrow> string \<Rightarrow> bool" where
  "occurs n [] = (n = [])"
| "occurs n (c # cs) = (take (length n) (c # cs) = n \<or> occurs n cs)"

text \<open>
  What one round of the worker's inner loop writes for a record: the file write, when
  the record is flagged for the file, file logging is on, the stream is open and it is
  good; and then the print.
\<close>

definition worker_writes :: "logger \<Rightarrow> LogMessage \<Rightarrow> io_event list" where
  "worker_writes s msg =
     (if msg_toFile msg \<and> m_logToFile s \<and> m_logFile_open s \<and> \<not> m_logFile_fail s
      then [FileWrite (msg_message msg)] else []) @ [Print (msg_message msg)]"

text \<open>
  What the destructor's loop writes for a record: for a record flagged for the file,
  with file logging on and the stream open, the file write if the stream is good and
  nothing otherwise; for any other record the print.
\<close>

definition dtor_writes :: "logger \<Rightarrow> LogMessage \<Rightarrow> io_event list" where
  "dtor_writes s msg =
     (if msg_toFile msg \<and> m_logToFile s \<and> m_logFile_open s
      then (if m_logFile_fail s then [] else [FileWrite (msg_message msg)])
      else [Print (msg_message msg)])"

text \<open>The texts a trace sends to the console, in order.\<close>

fun printed :: "io_event list \<Rightarrow> string list" where
  "printed [] = []"
| "printed (Print txt # evs) = txt # printed evs"
| "printed (FileWrite txt # evs) = printed evs"

text \<open>
  A schedule of the pipeline: \<open>Push msg\<close> is a producer running \<^verbatim>\<open>pushToQ\<close> under the queue
  lock, \<open>Work\<close> is the worker running one round of its inner loop (with an empty queue
  it has nothing to pop). The worker is the only thread that pops and writes, so its
  writes follow its pops whatever the producers push in between. \<open>pushed\<close> lists the
  records a schedule enqueues, in the order of the pushes; \<open>pops sched n\<close> counts the
  records the worker pops in the schedule when the queue starts with \<open>n\<close> records.
\<close>

datatype pipeline_step = Push LogMessage | Work

fun step :: "pipeline_step \<Rightarrow> logger \<Rightarrow> logger" where
  "step (Push msg) s = pushToQ s msg"
| "step Work s = worker_body s"

fun run :: "pipeline_step list \<Rightarrow> logger \<Rightarrow> logger" where
  "run [] s = s"
| "run (a # as) s = run as (step a s)"

fun pushed :: "pipeline_step list \<Rightarrow> LogMessage list" where
  "pushed [] = []"
| "pushed (Push msg # as) = msg # pushed as"
| "pushed (Work # as) = pushed as"

fun pops :: "pipeline_step list \<Rightarrow> nat \<Rightarrow> nat" where
  "pops [] n = 0"
| "pops (Push msg # as) n = pops as (Suc n)"
| "pops (Work # as) n = (if n = 0 then pops as 0 else Suc (pops as (n - 1)))"

text \<open>Sequencing of calls that may terminate the process.\<close>

fun bind_outcome :: "'a outcome \<Rightarrow> ('a \<Rightarrow> 'b outcome) \<Rightarrow> 'b outcome" where
  "bind_outcome (Returned x) f = f x"
| "bind_outcome Terminated f = Terminated"

text \<open>
  The console form in the words of the specification:
  \<^verbatim>\<open><color><LEVEL> <shortFile>:<line> in function <reset>'<function>'<color>: <message><reset>\n\<close>.
\<close>

definition spec_console_form :: "string \<Rightarrow> string \<Rightarrow> string \<Rightarrow> string \<Rightarrow> string \<Rightarrow> string \<Rightarrow> string" where
  "spec_console_form color LEVEL shortfile line_no func message =
     color @ LEVEL @ '' '' @ shortfile @ '':'' @ line_no @ '' in function '' @ COLOR_RESET
     @ quote @ func @ quote @ color @ '': '' @ message @ COLOR_RESET @ newline"

text \<open>A logger with file logging enabled and the stream good.\<close>

definition enabled0 :: logger where
  "enabled0 = Logger_init\<lparr> m_logFile_open := True, m_logToFile := True \<rparr>"

text \<open>
  The calls \<^verbatim>\<open>ENABLE_FILE_LOGGING(true)\<close> twice and then \<^verbatim>\<open>FLOG_ERROR("disk {}", "full")\<close>, on a
  fresh logger whose log path can be opened.
\<close>

definition enabled_twice_then_logged :: "logger outcome" where
  "enabled_twice_then_logged =
     bind_outcome
       (bind_outcome (EnableFileLogging env1 True Logger_init) (EnableFileLogging env1 True))
       (\<lambda>s. LogToFile env1 s Error w0 ''disk {}'' [''full''])"

section \<open>Properties\<close>

subsection \<open>Rendering and the log calls\<close>

lemma format_throws:
  "vformat e fmt args = Inl err \<Longrightarrow> format e level wh fmt b args = Terminated"
  by (simp add: format_def)

lemma format_console:
  "vformat e fmt args = Inr payload \<Longrightarrow>
     format e level wh fmt False args = Returned (console_form level wh payload)"
  by (simp add: format_def)

lemma format_file:
  "vformat e fmt args = Inr payload \<Longrightarrow>
     format e level wh fmt True args =
       Returned (file_form (filter (\<lambda>c. c \<noteq> CHR 0x0A) (ctime_now e)) level wh payload)"
  by (simp add: format_def)

lemma Log_below:
  "level_num level < level_num (m_level s) \<Longrightarrow> Log e s level wh fmt args = Returned s"
  by (simp add: Log_def)

lemma Log_pass:
  "\<not> level_num level < level_num (m_level s) \<Longrightarrow> vformat e fmt args = Inr payload \<Longrightarrow>
     Log e s level wh fmt args =
       Returned (s\<lparr> m_logQ := m_logQ s @
         [\<lparr> msg_level = level, msg_where = wh, msg_message = console_form level wh payload,
            msg_toFile = False \<rparr>] \<rparr>)"
  by (simp add: Log_def format_console pushToQ_def)

lemma Log_throws:
  "\<not> level_num level < level_num (m_level s) \<Longrightarrow> vformat e fmt args = Inl err \<Longrightarrow>
     Log e s level wh fmt args = Terminated"
  by (simp add: Log_def format_throws)

lemma LogToFile_throws:
  "m_logToFile s \<Longrightarrow> vformat e fmt args = Inl err \<Longrightarrow>
     LogToFile e s level wh fmt args = Terminated"
  by (simp add: LogToFile_def format_throws)

text \<open>
  Claim C1 says that no log call, whatever its template and arguments, crashes the host
  process, and that a formatting failure degrades to a diagnostic. The code does not do
  that: \<^verbatim>\<open>std::vformat\<close> throws on a template that asks for an argument the call does not
  pass, nothing catches it, and \<^verbatim>\<open>format\<close>, \<^verbatim>\<open>Log\<close> and \<^verbatim>\<open>LogToFile\<close> are \<^verbatim>\<open>noexcept\<close>. The
  theorem evaluates both entry points on the template \<^verbatim>\<open>{}\<close> with no argument: the
  process terminates.
\<close>

theorem log_call_terminates_on_template_mismatch:
  "Log env0 Logger_init Info w0 ''{}'' [] = Terminated \<and>
   LogToFile env0 (Logger_init\<lparr> m_logFile_open := True, m_logToFile := True \<rparr>) Info w0 ''{}'' []
     = Terminated"
  by (simp add: Log_def LogToFile_def format_def env0_def Logger_init_def)

text \<open>
  Claim C2: while file logging is enabled, \<^verbatim>\<open>LogToFile\<close> renders the file form and
  pushes exactly one record flagged for the file, whatever the level of the call and
  whatever the minimum level is set to; the level filter is not consulted. (The
  template is one that \<^verbatim>\<open>std::vformat\<close> accepts.)
\<close>

theorem LogToFile_ignores_minimum_level:
  assumes "m_logToFile s" and "vformat e fmt args = Inr payload"
  shows "LogToFile e (SetLevel minimumLevel s) L wh fmt args =
     Returned ((SetLevel minimumLevel s)\<lparr> m_logQ := m_logQ s @
       [\<lparr> msg_level = L, msg_where = wh,
          msg_message = file_form (filter (\<lambda>c. c \<noteq> CHR 0x0A) (ctime_now e)) L wh payload,
          msg_toFile = True \<rparr>] \<rparr>)"
  using assms by (simp add: LogToFile_def SetLevel_def format_file pushToQ_def)

theorem LogToFile_ignores_minimum_level_witness:
  "m_logToFile (Logger_init\<lparr> m_logFile_open := True, m_logToFile := True \<rparr>) \<and>
   vformat env0 ''disk {}'' [''full''] = Inr ''disk full'' \<and>
   LogToFile env0 (SetLevel Off (Logger_init\<lparr> m_logFile_open := True, m_logToFile := True \<rparr>))
       Trace w0 ''disk {}'' [''full''] =
     Returned ((SetLevel Off (Logger_init\<lparr> m_logFile_open := True, m_logToFile := True \<rparr>))
       \<lparr> m_logQ := m_logQ (Logger_init\<lparr> m_logFile_open := True, m_logToFile := True \<rparr>) @
       [\<lparr> msg_level = Trace, msg_where = w0,
          msg_message =
            file_form (filter (\<lambda>c. c \<noteq> CHR 0x0A) (ctime_now env0)) Trace w0 ''disk full'',
          msg_toFile = True \<rparr>] \<rparr>)"
proof -
  have h1: "m_logToFile (Logger_init\<lparr> m_logFile_open := True, m_logToFile := True \<rparr>)"
    by simp
  have h2: "vformat env0 ''disk {}'' [''full''] = Inr ''disk full''"
    by (simp add: env0_def)
  show ?thesis
    using h1 h2 LogToFile_ignores_minimum_level [OF h1 h2] by blast
qed

text \<open>
  Claim C3: after \<^verbatim>\<open>SetLevel(L2)\<close>, a console log call at a level \<open>L1\<close> below \<open>L2\<close> returns
  the logger unchanged, and it does so for every template, also one that
  \<^verbatim>\<open>std::vformat\<close> would reject: the message is not rendered. A call at \<open>L2\<close> or above
  renders the console form and pushes exactly one record.
\<close>

theorem Log_minimum_level_gate:
  assumes "level_num L1 < level_num L2"
  shows "Log e (SetLevel L2 s) L1 wh fmt args = Returned (SetLevel L2 s) \<and>
    (level_num L2 \<le> level_num L \<longrightarrow> vformat e fmt' args' = Inr payload \<longrightarrow>
       Log e (SetLevel L2 s) L wh' fmt' args' =
         Returned ((SetLevel L2 s)\<lparr> m_logQ := m_logQ s @
           [\<lparr> msg_level = L, msg_where = wh', msg_message = console_form L wh' payload,
              msg_toFile = False \<rparr>] \<rparr>))"
  using assms by (simp add: Log_below Log_pass SetLevel_def)

theorem Log_minimum_level_gate_witness:
  "level_num Info < level_num Warn \<and>
   vformat env0 ''{}'' [] = Inl FormatError \<and>
   Log env0 (SetLevel Warn Logger_init) Info w0 ''{}'' [] = Returned (SetLevel Warn Logger_init) \<and>
   level_num Warn \<le> level_num Error \<and>
   vformat env0 ''fps {}'' [''12''] = Inr ''fps 12'' \<and>
   Log env0 (SetLevel Warn Logger_init) Error w0 ''fps {}'' [''12''] =
     Returned ((SetLevel Warn Logger_init)\<lparr> m_logQ := m_logQ Logger_init @
       [\<lparr> msg_level = Error, msg_where = w0, msg_message = console_form Error w0 ''fps 12'',
          msg_toFile = False \<rparr>] \<rparr>)"
proof -
  have h1: "level_num Info < level_num Warn"
    by simp
  have h2: "level_num Warn \<le> level_num Error"
    by simp
  have h3: "vformat env0 ''fps {}'' [''12''] = Inr ''fps 12''"
    by (simp add: env0_def)
  have h4: "vformat env0 ''{}'' [] = Inl FormatError"
    by (simp add: env0_def)
  show ?thesis
    using h1 h2 h3 h4
      Log_minimum_level_gate [OF h1, of env0 Logger_init w0 "''{}''" "[]" Error
        "''fps {}''" "[''12'']" "''fps 12''" w0]
    by blast
qed


subsection \<open>The short file name\<close>

lemma occurs_iff: "occurs n h \<longleftrightarrow> (\<exists>a b. h = a @ n @ b)"
proof (induction h)
  case Nil
  then show ?case by auto
next
  case (Cons c cs)
  show ?case
  proof
    assume "occurs n (c # cs)"
    then consider "take (length n) (c # cs) = n" | "occurs n cs" by auto
    then show "\<exists>a b. c # cs = a @ n @ b"
    proof cases
      case 1
      then have "c # cs = [] @ n @ drop (length n) (c # cs)"
        by (metis append_Nil append_take_drop_id)
      then show ?thesis by blast
    next
      case 2
      then obtain a b where "cs = a @ n @ b" using Cons.IH by blast
      then have "c # cs = (c # a) @ n @ b" by simp
      then show ?thesis by blast
    qed
  next
    assume "\<exists>a b. c # cs = a @ n @ b"
    then obtain a b where ab: "c # cs = a @ n @ b" by blast
    show "occurs n (c # cs)"
    proof (cases a)
      case Nil
      with ab have "take (length n) (c # cs) = n" by simp
      then show ?thesis by simp
    next
      case (Cons x xs)
      with ab have "cs = xs @ n @ b" by simp
      then have "occurs n cs" using Cons.IH by blast
      then show ?thesis by simp
    qed
  qed
qed

lemma strstr_None_iff: "strstr h n = None \<longleftrightarrow> \<not> occurs n h"
  by (induction h) auto

lemma take_append_short: "k \<le> length xs \<Longrightarrow> take k (xs @ ys) = take k xs"
  by simp

lemma strstr_first:
  "n \<noteq> [] \<Longrightarrow> \<not> occurs n (pre @ butlast n) \<Longrightarrow> strstr (pre @ n @ rest) n = Some (n @ rest)"
proof (induction pre)
  case Nil
  then obtain c cs where "n @ rest = c # cs" by (cases n) auto
  moreover have "take (length n) (n @ rest) = n" by simp
  ultimately show ?case by (metis append_Nil strstr.simps(2))
next
  case (Cons p ps)
  have len: "length n \<le> length (p # ps @ butlast n)" by simp
  have "butlast n @ [last n] = n"
    using Cons.prems(1) by simp
  then have "n @ rest = butlast n @ (last n # rest)"
    by (metis append_Cons append_Nil append_assoc)
  then have split: "p # ps @ n @ rest = (p # ps @ butlast n) @ (last n # rest)"
    by simp
  have tk: "take (length n) ((p # ps @ butlast n) @ (last n # rest)) = take (length n) (p # ps @ butlast n)"
    using len by (rule take_append_short)
  have A: "take (length n) (p # ps @ n @ rest) = take (length n) (p # ps @ butlast n)"
    using split tk by (simp only:)
  have B: "take (length n) (p # ps @ butlast n) \<noteq> n"
    using Cons.prems(2) by simp
  have "take (length n) (p # ps @ n @ rest) \<noteq> n"
    using A B by metis
  moreover have "\<not> occurs n (ps @ butlast n)" using Cons.prems(2) by simp
  ultimately show ?case using Cons.IH Cons.prems(1) by simp
qed

lemma strrchr_None: "c \<notin> set h \<Longrightarrow> strrchr h c = None"
  by (induction h) auto

lemma strrchr_last: "c \<notin> set base \<Longrightarrow> strrchr (dir @ c # base) c = Some (c # base)"
  by (induction dir) (auto simp: strrchr_None)

lemma occurs_set: "occurs n h \<Longrightarrow> set n \<subseteq> set h"
  using occurs_iff by fastforce

text \<open>
  Claim C6, as stated, says that for a path with a \<^verbatim>\<open>src/\<close> marker the short file is the
  remainder after the marker (\<^verbatim>\<open>foo/bar.ext\<close> for \<^verbatim>\<open>.../src/foo/bar.ext\<close>). The code keeps the
  marker: \<^verbatim>\<open>strstr\<close> points at the start of the match and the pointer is not advanced.
\<close>

theorem shortFile_keeps_src_marker:
  "shortFile ''/home/u/proj/src/foo/bar.ext'' = ''src/foo/bar.ext'' \<and>
   shortFile ''/home/u/proj/src/foo/bar.ext'' \<noteq> ''foo/bar.ext''"
  by (simp add: shortFile_def)

text \<open>
  Claim C6, amended: when the path contains \<^verbatim>\<open>src/\<close>, the short file is the part of the
  path from the first occurrence of \<^verbatim>\<open>src/\<close> on, marker included; when it does not, it
  is the text after the last \<^verbatim>\<open>/\<close>; when there is no \<^verbatim>\<open>/\<close> at all, it is the full path.
  (An occurrence of \<^verbatim>\<open>src/\<close> that starts inside \<open>pre\<close> would lie inside \<open>pre @ ''src''\<close>.)
\<close>

theorem shortFile_resolution:
  "(\<not> occurs ''src/'' (pre @ ''src'') \<longrightarrow> shortFile (pre @ ''src/'' @ rest) = ''src/'' @ rest) \<and>
   (\<not> occurs ''src/'' (dir @ ''/'' @ base) \<and> CHR ''/'' \<notin> set base \<longrightarrow>
      shortFile (dir @ ''/'' @ base) = base) \<and>
   (CHR ''/'' \<notin> set full \<longrightarrow> shortFile full = full)"
proof (intro conjI impI)
  assume "\<not> occurs ''src/'' (pre @ ''src'')"
  then have "strstr (pre @ ''src/'' @ rest) ''src/'' = Some (''src/'' @ rest)"
    using strstr_first [of "''src/''" pre rest] by simp
  then show "shortFile (pre @ ''src/'' @ rest) = ''src/'' @ rest"
    by (simp add: shortFile_def)
next
  assume a: "\<not> occurs ''src/'' (dir @ ''/'' @ base) \<and> CHR ''/'' \<notin> set base"
  then have "strstr (dir @ ''/'' @ base) ''src/'' = None"
    by (simp only: strstr_None_iff not_False_eq_True)
  moreover have "strrchr (dir @ ''/'' @ base) (CHR ''/'') = Some (''/'' @ base)"
    using a strrchr_last [of "CHR ''/''" base dir] by simp
  ultimately show "shortFile (dir @ ''/'' @ base) = base"
    by (simp add: shortFile_def)
next
  assume a: "CHR ''/'' \<notin> set full"
  then have "\<not> occurs ''src/'' full" using occurs_set [of "''src/''" full] by auto
  then have "strstr full ''src/'' = None" by (simp only: strstr_None_iff not_False_eq_True)
  moreover have "strrchr full (CHR ''/'') = None" using a by (rule strrchr_None)
  ultimately show "shortFile full = full" by (simp add: shortFile_def)
qed

theorem shortFile_resolution_witness:
  "\<not> occurs ''src/'' (''/home/u/proj/'' @ ''src'') \<and>
   shortFile (''/home/u/proj/'' @ ''src/'' @ ''foo/bar.ext'') = ''src/'' @ ''foo/bar.ext'' \<and>
   \<not> occurs ''src/'' (''/home/u/proj'' @ ''/'' @ ''bar.ext'') \<and> CHR ''/'' \<notin> set ''bar.ext'' \<and>
   shortFile (''/home/u/proj'' @ ''/'' @ ''bar.ext'') = ''bar.ext'' \<and>
   CHR ''/'' \<notin> set ''bar.ext'' \<and> shortFile ''bar.ext'' = ''bar.ext''"
proof -
  have h1: "\<not> occurs ''src/'' (''/home/u/proj/'' @ ''src'')" by simp
  have h2: "\<not> occurs ''src/'' (''/home/u/proj'' @ ''/'' @ ''bar.ext'')" by simp
  have h3: "CHR ''/'' \<notin> set ''bar.ext''" by simp
  show ?thesis
    using h1 h2 h3 shortFile_resolution [of "''/home/u/proj/''" "''foo/bar.ext''" "''/home/u/proj''" "''bar.ext''" "''bar.ext''"]
    by blast
qed

subsection \<open>Misuse and configuration errors\<close>

text \<open>
  Claim C4, as stated, says that every \<^verbatim>\<open>LogToFile\<close> call made while file logging is off
  emits exactly one Warn record. The warning goes through \<^verbatim>\<open>Log\<close> and so through the
  minimum-level filter: with the minimum level at Error the call queues nothing.
\<close>

theorem LogToFile_disabled_warning_is_filtered:
  "LogToFile env0 (SetLevel Error Logger_init) Info w0 ''saved {}'' [''x'']
     = Returned (SetLevel Error Logger_init) \<and>
   queued (LogToFile env0 (SetLevel Error Logger_init) Info w0 ''saved {}'' [''x'']) = []"
  by (simp add: LogToFile_def Log_def SetLevel_def Logger_init_def)

text \<open>
  Claim C4, amended: a \<^verbatim>\<open>LogToFile\<close> call made while file logging is off pushes exactly
  one Warn-level console record noting the misuse when the minimum level is Warn or
  lower, and nothing when it is higher; in both cases it returns, the requested message
  is dropped (the result does not depend on the level, template or arguments of the
  call, which are not even rendered) and nothing is written.
\<close>

theorem LogToFile_disabled_drops_message:
  assumes "\<not> m_logToFile s"
    and "vformat e ''cannot log to file if it was not previously enabled'' [] =
           Inr ''cannot log to file if it was not previously enabled''"
  shows "LogToFile e s level wh fmt args =
     Returned (if level_num (m_level s) \<le> level_num Warn
       then s\<lparr> m_logQ := m_logQ s @
         [\<lparr> msg_level = Warn, msg_where = here_LogToFile e,
            msg_message = console_form Warn (here_LogToFile e)
              ''cannot log to file if it was not previously enabled'',
            msg_toFile = False \<rparr>] \<rparr>
       else s)"
proof (cases "level_num Warn < level_num (m_level s)")
  case True
  then show ?thesis using assms(1) by (simp add: LogToFile_def Log_below)
next
  case False
  then show ?thesis
    using assms Log_pass [OF False assms(2)] by (simp add: LogToFile_def)
qed

theorem LogToFile_disabled_drops_message_witness:
  "\<not> m_logToFile Logger_init \<and>
   vformat env0 ''cannot log to file if it was not previously enabled'' [] =
           Inr ''cannot log to file if it was not previously enabled'' \<and>
   LogToFile env0 Logger_init Info w0 ''saved {}'' [''x''] =
     Returned (if level_num (m_level Logger_init) \<le> level_num Warn
       then Logger_init\<lparr> m_logQ := m_logQ Logger_init @
         [\<lparr> msg_level = Warn, msg_where = here_LogToFile env0,
            msg_message = console_form Warn (here_LogToFile env0)
              ''cannot log to file if it was not previously enabled'',
            msg_toFile = False \<rparr>] \<rparr>
       else Logger_init) \<and>
   level_num (m_level Logger_init) \<le> level_num Warn"
proof -
  have h1: "\<not> m_logToFile Logger_init"
    by (simp add: Logger_init_def)
  have h2: "vformat env0 ''cannot log to file if it was not previously enabled'' [] =
           Inr ''cannot log to file if it was not previously enabled''"
    by (simp add: env0_def)
  have h3: "level_num (m_level Logger_init) \<le> level_num Warn"
    by (simp add: Logger_init_def)
  show ?thesis
    using h1 h2 h3 LogToFile_disabled_drops_message [OF h1 h2, of Info w0 "''saved {}''" "[''x'']"] by blast
qed

text \<open>
  Claim C5, as stated, says that a failed open is reported by a Warn-level record and
  leaves file logging disabled. The code reports it at level Error, through \<^verbatim>\<open>Log\<close> and
  its minimum-level filter (nothing is queued with the minimum level at Fatal), and it
  detects the failure by \<^verbatim>\<open>is_open()\<close> alone: on a stream that is already open the open
  fails, yet nothing is reported and file logging stays on.
\<close>

theorem EnableFileLogging_failure_is_Error_level:
  "map msg_level (queued (EnableFileLogging env0 True Logger_init)) = [Error] \<and>
   Warn \<notin> set (map msg_level (queued (EnableFileLogging env0 True Logger_init))) \<and>
   queued (EnableFileLogging env0 True (SetLevel Fatal Logger_init)) = [] \<and>
   EnableFileLogging env0 True enabled0 = Returned (enabled0\<lparr> m_logFile_fail := True \<rparr>) \<and>
   m_logToFile (enabled0\<lparr> m_logFile_fail := True \<rparr>) \<and>
   m_logQ (enabled0\<lparr> m_logFile_fail := True \<rparr>) = []"
  by (simp add: EnableFileLogging_def fstream_open_def Log_def format_def pushToQ_def env0_def
      Logger_init_def SetLevel_def enabled0_def)

text \<open>
  Claim C5, amended: when \<^verbatim>\<open>EnableFileLogging(true)\<close> is called with the stream closed and
  the configured path cannot be opened, it pushes one Error-level console record
  reporting the failure when the minimum level is Error or lower (nothing when it is
  higher), leaves file logging disabled and the stream closed, and returns normally.
\<close>

theorem EnableFileLogging_open_failure:
  assumes "\<not> m_logFile_open s" and "\<not> can_open e (m_logPath s)"
    and "vformat e ''Failed to open file'' [] = Inr ''Failed to open file''"
  shows "EnableFileLogging e True s =
     Returned (if level_num (m_level s) \<le> level_num Error
       then s\<lparr> m_logFile_fail := True, m_logToFile := False, m_logQ := m_logQ s @
         [\<lparr> msg_level = Error, msg_where = here_EnableFileLogging e,
            msg_message = console_form Error (here_EnableFileLogging e) ''Failed to open file'',
            msg_toFile = False \<rparr>] \<rparr>
       else s\<lparr> m_logFile_fail := True, m_logToFile := False \<rparr>)"
proof (cases "level_num Error < level_num (m_level s)")
  case True
  then show ?thesis
    using assms(1,2) by (simp add: EnableFileLogging_def fstream_open_def Log_below)
next
  case False
  then show ?thesis
    using assms by (simp add: EnableFileLogging_def fstream_open_def Log_pass)
qed

theorem EnableFileLogging_open_failure_witness:
  "\<not> m_logFile_open Logger_init \<and> \<not> can_open env0 (m_logPath Logger_init) \<and>
   vformat env0 ''Failed to open file'' [] = Inr ''Failed to open file'' \<and>
   EnableFileLogging env0 True Logger_init =
     Returned (if level_num (m_level Logger_init) \<le> level_num Error
       then Logger_init\<lparr> m_logFile_fail := True, m_logToFile := False,
         m_logQ := m_logQ Logger_init @
         [\<lparr> msg_level = Error, msg_where = here_EnableFileLogging env0,
            msg_message = console_form Error (here_EnableFileLogging env0) ''Failed to open file'',
            msg_toFile = False \<rparr>] \<rparr>
       else Logger_init\<lparr> m_logFile_fail := True, m_logToFile := False \<rparr>) \<and>
   level_num (m_level Logger_init) \<le> level_num Error"
proof -
  have h1: "\<not> m_logFile_open Logger_init"
    by (simp add: Logger_init_def)
  have h2: "\<not> can_open env0 (m_logPath Logger_init)"
    by (simp add: env0_def)
  have h3: "vformat env0 ''Failed to open file'' [] = Inr ''Failed to open file''"
    by (simp add: env0_def)
  have h4: "level_num (m_level Logger_init) \<le> level_num Error"
    by (simp add: Logger_init_def)
  show ?thesis
    using h1 h2 h3 h4 EnableFileLogging_open_failure [OF h1 h2 h3] by blast
qed

subsection \<open>The console form\<close>

lemma show_nat_7: "show_nat 7 = ''7''"
  by code_simp

text \<open>
  Claim C9, as stated, gives the console form with the bare level name after the
  colour. The code puts the level name in square brackets.
\<close>

theorem console_form_is_not_the_stated_form:
  "format env0 Info w0 ''ready'' False [] \<noteq>
     Returned (spec_console_form (LevelColour Info) (toString Info) (shortFile (file_name w0))
                 (show_nat (line w0)) (function_name w0) ''ready'')"
  by (simp add: format_def console_form_def spec_console_form_def env0_def COLOR_GREEN_def)

text \<open>
  Claim C9, amended: for a console-targeted call the rendered string is
  \<^verbatim>\<open><color>[<LEVEL>] <shortFile>:<line> in function <reset>'<function>'<color>: <message><reset>\n\<close>,
  the colour chosen by level: Trace grey (90), Debug blue (34), Info green (32), Warn
  yellow (33), Error red (31), Fatal white on a red background (41;97).
\<close>

theorem format_console_rendering:
  assumes "vformat e fmt args = Inr message"
  shows "format e L wh fmt False args =
     Returned (LevelColour L @ ''['' @ toString L @ ''] '' @ shortFile (file_name wh) @ '':''
       @ show_nat (line wh) @ '' in function '' @ COLOR_RESET @ quote @ function_name wh @ quote
       @ LevelColour L @ '': '' @ message @ COLOR_RESET @ newline) \<and>
     map LevelColour [Trace, Debug, Info, Warn, Error, Fatal] =
       [ESC # ''[90m'', ESC # ''[34m'', ESC # ''[32m'', ESC # ''[33m'', ESC # ''[31m'',
        ESC # ''[41;97m''] \<and>
     map toString [Trace, Debug, Info, Warn, Error, Fatal] =
       [''TRACE'', ''DEBUG'', ''INFO'', ''WARN'', ''ERROR'', ''FATAL''] \<and>
     COLOR_RESET = ESC # ''[0m'' \<and> quote = [CHR 0x27] \<and> newline = [CHR 0x0A]"
  using assms
  by (simp add: format_console console_form_def COLOR_GREY_def COLOR_BLUE_def COLOR_GREEN_def
      COLOR_YELLOW_def COLOR_RED_def COLOR_FATAL_def COLOR_RESET_def quote_def newline_def)


theorem format_console_rendering_witness:
  "vformat env0 ''fps {}'' [''12''] = Inr ''fps 12'' \<and>
   format env0 Warn w0 ''fps {}'' False [''12''] =
     Returned (ESC # ''[33m[WARN] src/foo/bar.ext:7 in function '' @ ESC # ''[0m'' @ [CHR 0x27]
       @ ''main'' @ [CHR 0x27] @ ESC # ''[33m: fps 12'' @ ESC # ''[0m'' @ [CHR 0x0A])"
proof -
  have h: "vformat env0 ''fps {}'' [''12''] = Inr ''fps 12''"
    by (simp add: env0_def)
  show ?thesis
    using h format_console_rendering [OF h, of Warn w0]
    by (simp add: w0_def shortFile_def show_nat_7 COLOR_YELLOW_def
        COLOR_RESET_def quote_def newline_def)
qed

subsection \<open>The worker and the order of writes\<close>

lemma worker_writes_cong:
  "m_logToFile s' = m_logToFile s \<Longrightarrow> m_logFile_open s' = m_logFile_open s \<Longrightarrow>
   m_logFile_fail s' = m_logFile_fail s \<Longrightarrow> worker_writes s' = worker_writes s"
  by (rule ext) (simp add: worker_writes_def)

lemma worker_body_Cons:
  "m_logQ s = msg # q \<Longrightarrow>
     worker_body s = s\<lparr> m_logQ := q, m_out := m_out s @ worker_writes s msg \<rparr>"
  by (simp add: worker_body_def worker_writes_def fstream_write_def Let_def)

lemma worker_body_Nil: "m_logQ s = [] \<Longrightarrow> worker_body s = s"
  by (simp add: worker_body_def)

lemma worker_inner_eq:
  "worker_inner s =
     s\<lparr> m_logQ := [], m_out := m_out s @ concat (map (worker_writes s) (m_logQ s)) \<rparr>"
proof (induction s rule: worker_inner.induct)
  case (1 s)
  show ?case
  proof (cases "m_logQ s")
    case Nil
    then show ?thesis by (simp add: worker_inner.simps [of s])
  next
    case (Cons msg q)
    let ?s' = "worker_body s"
    have body: "?s' = s\<lparr> m_logQ := q, m_out := m_out s @ worker_writes s msg \<rparr>"
      using Cons by (rule worker_body_Cons)
    have ww: "worker_writes ?s' = worker_writes s"
      by (rule worker_writes_cong) (simp_all add: body)
    have "worker_inner s = worker_inner ?s'"
      using Cons by (simp add: worker_inner.simps [of s])
    also have "\<dots> = ?s'\<lparr> m_logQ := [],
        m_out := m_out ?s' @ concat (map (worker_writes ?s') (m_logQ ?s')) \<rparr>"
      using Cons "1.IH" by simp
    also have "\<dots> = s\<lparr> m_logQ := [],
        m_out := m_out s @ concat (map (worker_writes s) (m_logQ s)) \<rparr>"
      unfolding ww by (simp add: body Cons)
    finally show ?thesis .
  qed
qed

lemma run_prefix:
  "m_out (run sched s) =
       m_out s @ concat (map (worker_writes s)
         (take (pops sched (length (m_logQ s))) (m_logQ s @ pushed sched)))
   \<and> m_logQ (run sched s) = drop (pops sched (length (m_logQ s))) (m_logQ s @ pushed sched)
   \<and> worker_writes (run sched s) = worker_writes s"
proof (induction sched arbitrary: s)
  case Nil
  show ?case by simp
next
  case (Cons a as)
  note IH = Cons.IH
  show ?case
  proof (cases a)
    case (Push msg)
    let ?s' = "pushToQ s msg"
    have ww: "worker_writes ?s' = worker_writes s"
      by (rule worker_writes_cong) (simp_all add: pushToQ_def)
    have q: "m_logQ ?s' = m_logQ s @ [msg]" and o: "m_out ?s' = m_out s"
      by (simp_all add: pushToQ_def)
    show ?thesis
      using IH [of ?s'] unfolding ww q o by (simp add: Push)
  next
    case Work
    show ?thesis
    proof (cases "m_logQ s = []")
      case True
      then have "step a s = s" using Work by (simp add: worker_body_Nil)
      then show ?thesis using IH [of s] Work True by simp
    next
      case False
      then obtain msg q where front: "m_logQ s = msg # q"
        by (cases "m_logQ s") auto
      let ?s' = "worker_body s"
      have body: "?s' = s\<lparr> m_logQ := q, m_out := m_out s @ worker_writes s msg \<rparr>"
        using front by (rule worker_body_Cons)
      have ww: "worker_writes ?s' = worker_writes s"
        by (rule worker_writes_cong) (simp_all add: body)
      have q: "m_logQ ?s' = q" and o: "m_out ?s' = m_out s @ worker_writes s msg"
        by (simp_all add: body)
      show ?thesis
        using IH [of ?s'] unfolding ww q o by (simp add: Work front)
    qed
  qed
qed

lemma printed_append: "printed (xs @ ys) = printed xs @ printed ys"
  by (induction xs rule: printed.induct) simp_all

lemma printed_worker_writes:
  "printed (concat (map (worker_writes s) msgs)) = map msg_message msgs"
  by (induction msgs) (simp_all add: printed_append worker_writes_def)

text \<open>
  Claim C7: records are written in the order they were enqueued, across both
  destinations. Take any schedule of pushes and worker rounds, and let the enqueue
  sequence be the records already queued followed by the pushed ones. After the
  schedule the trace is exactly what the worker writes for the records it has popped,
  which are the first \<open>pops\<close> records of the enqueue sequence, record by record in that
  order, and the queue holds the rest. Once the worker has emptied the queue, the trace
  holds the writes for the whole enqueue sequence in that order, and every record has
  been printed, in enqueue order.
\<close>

theorem writes_follow_enqueue_order:
  "m_out (run sched s) =
       m_out s @ concat (map (worker_writes s)
         (take (pops sched (length (m_logQ s))) (m_logQ s @ pushed sched)))
   \<and> m_logQ (run sched s) = drop (pops sched (length (m_logQ s))) (m_logQ s @ pushed sched)
   \<and> m_out (worker_inner (run sched s)) =
       m_out s @ concat (map (worker_writes s) (m_logQ s @ pushed sched))
   \<and> m_logQ (worker_inner (run sched s)) = []
   \<and> printed (m_out (worker_inner (run sched s))) =
       printed (m_out s) @ map msg_message (m_logQ s @ pushed sched)"
proof -
  let ?k = "pops sched (length (m_logQ s))"
  let ?all = "m_logQ s @ pushed sched"
  have A: "m_out (run sched s) = m_out s @ concat (map (worker_writes s) (take ?k ?all))"
    and B: "m_logQ (run sched s) = drop ?k ?all"
    and W: "worker_writes (run sched s) = worker_writes s"
    using run_prefix [of sched s] by blast+
  have "concat (map (worker_writes s) (take ?k ?all)) @ concat (map (worker_writes s) (drop ?k ?all))
      = concat (map (worker_writes s) (take ?k ?all @ drop ?k ?all))"
    by (simp only: map_append concat_append)
  then have join: "concat (map (worker_writes s) (take ?k ?all))
      @ concat (map (worker_writes s) (drop ?k ?all)) = concat (map (worker_writes s) ?all)"
    by (simp only: append_take_drop_id)
  have C: "m_out (worker_inner (run sched s)) = m_out s @ concat (map (worker_writes s) ?all)"
    using join by (simp add: worker_inner_eq A B W)
  have D: "m_logQ (worker_inner (run sched s)) = []"
    by (simp add: worker_inner_eq)
  have E: "printed (m_out (worker_inner (run sched s))) =
       printed (m_out s) @ map msg_message ?all"
    by (simp only: C printed_append printed_worker_writes)
  show ?thesis using A B C D E by blast
qed

text \<open>The example of the claim, with a file-targeted call in the middle.\<close>

lemma log_A_B_C_written_in_order:
  "map_outcome (\<lambda>s. m_out (worker_inner s))
     (bind_outcome (bind_outcome (Log env0 enabled0 Info w0 ''A'' [])
        (\<lambda>s. LogToFile env0 s Info w0 ''B'' []))
        (\<lambda>s. Log env0 s Info w0 ''C'' [])) =
   Returned
     [Print (console_form Info w0 ''A''),
      FileWrite (file_form ''Mon Nov  2 04:13:00 2026'' Info w0 ''B''),
      Print (file_form ''Mon Nov  2 04:13:00 2026'' Info w0 ''B''),
      Print (console_form Info w0 ''C'')]"
  by (simp add: Log_def LogToFile_def format_def pushToQ_def worker_inner_eq worker_writes_def
      enabled0_def Logger_init_def env0_def)

lemma enabled_twice_then_logged_eq:
  "enabled_twice_then_logged =
     Returned (Logger_init\<lparr> m_logFile_open := True, m_logFile_fail := True, m_logToFile := True,
       m_logQ := [\<lparr> msg_level = Error, msg_where = w0,
         msg_message = file_form ''Mon Nov  2 04:13:00 2026'' Error w0 ''disk full'',
         msg_toFile = True \<rparr>] \<rparr>)"
  by (simp add: enabled_twice_then_logged_def EnableFileLogging_def fstream_open_def
      LogToFile_def format_def pushToQ_def env1_def env0_def Logger_init_def)

lemma worker_body_prints:
  "m_out (worker_body (s\<lparr> m_logQ := msg # q \<rparr>)) = m_out s @ worker_writes s msg \<and>
   last (m_out (worker_body (s\<lparr> m_logQ := msg # q \<rparr>))) = Print (msg_message msg)"
  by (simp add: worker_body_def worker_writes_def fstream_write_def Let_def)

lemma LogToFile_then_worker_good_stream:
  assumes "m_logToFile s" and "m_logFile_open s" and "\<not> m_logFile_fail s" and "m_logQ s = []"
    and "vformat e fmt args = Inr payload"
  shows "map_outcome worker_inner (LogToFile e s L wh fmt args) =
          Returned (s\<lparr> m_out := m_out s @
            [FileWrite (file_form (filter (\<lambda>c. c \<noteq> CHR 0x0A) (ctime_now e)) L wh payload),
             Print (file_form (filter (\<lambda>c. c \<noteq> CHR 0x0A) (ctime_now e)) L wh payload)] \<rparr>)"
proof -
  have "LogToFile e s L wh fmt args = Returned (s\<lparr> m_logQ :=
       [\<lparr> msg_level = L, msg_where = wh,
          msg_message = file_form (filter (\<lambda>c. c \<noteq> CHR 0x0A) (ctime_now e)) L wh payload,
          msg_toFile = True \<rparr>] \<rparr>)"
    using assms by (simp add: LogToFile_def format_file pushToQ_def)
  then show ?thesis
    using assms by (simp add: worker_inner_eq worker_writes_def)
qed

text \<open>
  Claim C10 says that the worker prints every record it pops, and that with file
  logging enabled a file-targeted record is written both to the file and to the
  console. The console half holds in every state (\<open>worker_body_prints\<close>), and so does
  the file half while the stream is good (\<open>LogToFile_then_worker_good_stream\<close>). The
  file half fails after \<^verbatim>\<open>EnableFileLogging(true)\<close> has been called twice: the second
  \<^verbatim>\<open>open\<close> puts the open stream into its failed state, file logging stays on, and the
  worker's insertion writes nothing. The theorem evaluates that run: the record is
  flagged for the file, file logging is on and the stream is open, and the only write
  is the print.
\<close>

theorem worker_file_write_lost_after_second_enable:
  "map_outcome (\<lambda>s. (m_logToFile s, m_logFile_open s, map msg_toFile (m_logQ s)))
       enabled_twice_then_logged = Returned (True, True, [True]) \<and>
   map_outcome (\<lambda>s. m_out (worker_inner s)) enabled_twice_then_logged =
     Returned [Print (file_form ''Mon Nov  2 04:13:00 2026'' Error w0 ''disk full'')]"
  by (simp add: enabled_twice_then_logged_eq worker_inner_eq worker_writes_def Logger_init_def)

subsection \<open>Shutdown\<close>

text \<open>
  The stream is open exactly when file logging is on: \<^verbatim>\<open>EnableFileLogging\<close> leaves the two
  flags equal, they are equal initially, and no log call changes them or the stream's
  error state.
\<close>

lemma EnableFileLogging_flags_agree:
  "EnableFileLogging e b s = Returned s' \<Longrightarrow> m_logFile_open s' = m_logToFile s'"
  by (auto simp: EnableFileLogging_def fstream_open_def fstream_close_def Log_def Let_def
      pushToQ_def split: if_splits outcome.splits)

lemma Logger_init_flags_agree: "m_logFile_open Logger_init = m_logToFile Logger_init"
  by (simp add: Logger_init_def)

lemma Log_keeps_flags:
  "Log e s level wh fmt args = Returned s' \<Longrightarrow>
     m_logFile_open s' = m_logFile_open s \<and> m_logToFile s' = m_logToFile s \<and>
     m_logFile_fail s' = m_logFile_fail s"
  by (auto simp: Log_def pushToQ_def split: if_splits outcome.splits)

lemma LogToFile_keeps_flags:
  "LogToFile e s level wh fmt args = Returned s' \<Longrightarrow>
     m_logFile_open s' = m_logFile_open s \<and> m_logToFile s' = m_logToFile s \<and>
     m_logFile_fail s' = m_logFile_fail s"
  by (auto simp: LogToFile_def pushToQ_def dest: Log_keeps_flags split: if_splits outcome.splits)

lemma dtor_writes_cong:
  "m_logToFile s' = m_logToFile s \<Longrightarrow> m_logFile_open s' = m_logFile_open s \<Longrightarrow>
   m_logFile_fail s' = m_logFile_fail s \<Longrightarrow> dtor_writes s' = dtor_writes s"
  by (rule ext) (simp add: dtor_writes_def)

lemma dtor_body_Cons:
  "m_logQ s = msg # q \<Longrightarrow>
     dtor_body s = s\<lparr> m_logQ := q, m_out := m_out s @ dtor_writes s msg \<rparr>"
  by (simp add: dtor_body_def dtor_writes_def fstream_write_def Let_def)

lemma dtor_drain_eq:
  "dtor_drain s =
     s\<lparr> m_logQ := [], m_out := m_out s @ concat (map (dtor_writes s) (m_logQ s)) \<rparr>"
proof (induction s rule: dtor_drain.induct)
  case (1 s)
  show ?case
  proof (cases "m_logQ s")
    case Nil
    then show ?thesis by (simp add: dtor_drain.simps [of s])
  next
    case (Cons msg q)
    let ?s' = "dtor_body s"
    have body: "?s' = s\<lparr> m_logQ := q, m_out := m_out s @ dtor_writes s msg \<rparr>"
      using Cons by (rule dtor_body_Cons)
    have dw: "dtor_writes ?s' = dtor_writes s"
      by (rule dtor_writes_cong) (simp_all add: body)
    have "dtor_drain s = dtor_drain ?s'"
      using Cons by (simp add: dtor_drain.simps [of s])
    also have "\<dots> = ?s'\<lparr> m_logQ := [],
        m_out := m_out ?s' @ concat (map (dtor_writes ?s') (m_logQ ?s')) \<rparr>"
      using Cons "1.IH" by simp
    also have "\<dots> = s\<lparr> m_logQ := [],
        m_out := m_out s @ concat (map (dtor_writes s) (m_logQ s)) \<rparr>"
      unfolding dw by (simp add: body Cons)
    finally show ?thesis .
  qed
qed

lemma destructor_AtLoopHead:
  "destructor AtLoopHead s =
     Some (s\<lparr> m_running := False, m_logQ := [], m_logFile_open := False,
       m_out := m_out s @ concat (map (dtor_writes s) (m_logQ s)) \<rparr>)"
proof -
  have dw: "dtor_writes (s\<lparr> m_running := False \<rparr>) = dtor_writes s"
    by (rule dtor_writes_cong) simp_all
  show ?thesis
    by (cases "m_logFile_open s")
      (simp_all add: destructor_def dtor_drain_eq dw fstream_close_def Let_def)
qed

lemma destructor_PastLoopHead:
  "destructor PastLoopHead s =
     Some (s\<lparr> m_running := False, m_logQ := [], m_logFile_open := False,
       m_out := m_out s @ concat (map (worker_writes s) (m_logQ s)) \<rparr>)"
proof -
  have ww: "worker_writes (s\<lparr> m_running := False \<rparr>) = worker_writes s"
    by (rule worker_writes_cong) simp_all
  show ?thesis
    by (cases "m_logFile_open s")
      (simp_all add: destructor_def worker_inner_eq dtor_drain_eq ww fstream_close_def Let_def)
qed

lemma destructor_good_stream_writes_every_record:
  assumes "\<not> m_logFile_fail s"
  shows "map_option m_out (destructor AtLoopHead s) =
       Some (m_out s @ map (\<lambda>msg. if msg_toFile msg \<and> m_logToFile s \<and> m_logFile_open s
                                 then FileWrite (msg_message msg)
                                 else Print (msg_message msg)) (m_logQ s))"
proof -
  have "concat (map (dtor_writes s) msgs) =
      map (\<lambda>msg. if msg_toFile msg \<and> m_logToFile s \<and> m_logFile_open s
                 then FileWrite (msg_message msg) else Print (msg_message msg)) msgs" for msgs
    using assms by (induction msgs) (simp_all add: dtor_writes_def)
  then show ?thesis by (simp add: destructor_AtLoopHead)
qed

text \<open>
  Claim C8 says that shutdown joins the worker and then writes every record still
  queued before it closes the stream, so that no record is dropped. With a good stream
  and a worker that is joined, the destructor does that
  (\<open>destructor_good_stream_writes_every_record\<close>). It fails in two ways. After
  \<^verbatim>\<open>EnableFileLogging(true)\<close> has been called twice the stream is open and failed: the
  destructor's loop takes the file branch for a record flagged for the file, the
  insertion writes nothing and the print of the other branch is skipped, so the queue
  ends empty and the record has reached neither sink. And when the worker has tested
  its wait predicate but not yet blocked, it misses the destructor's notification and
  the join never returns.
\<close>

theorem destructor_loses_record_or_never_returns:
  "map_outcome (\<lambda>s. map msg_message (m_logQ s)) enabled_twice_then_logged =
     Returned [file_form ''Mon Nov  2 04:13:00 2026'' Error w0 ''disk full''] \<and>
   map_outcome (\<lambda>s. map_option m_out (destructor AtLoopHead s)) enabled_twice_then_logged =
     Returned (Some []) \<and>
   map_outcome (\<lambda>s. map_option m_logQ (destructor AtLoopHead s)) enabled_twice_then_logged =
     Returned (Some []) \<and>
   destructor PredicateTested Logger_init = None"
proof -
  have lost: "map_outcome (\<lambda>s. map msg_message (m_logQ s)) enabled_twice_then_logged =
       Returned [file_form ''Mon Nov  2 04:13:00 2026'' Error w0 ''disk full''] \<and>
     map_outcome (\<lambda>s. map_option m_out (destructor AtLoopHead s)) enabled_twice_then_logged =
       Returned (Some []) \<and>
     map_outcome (\<lambda>s. map_option m_logQ (destructor AtLoopHead s)) enabled_twice_then_logged =
       Returned (Some [])"
    by (simp add: enabled_twice_then_logged_eq destructor_AtLoopHead dtor_writes_def
        Logger_init_def)
  have hang: "destructor PredicateTested Logger_init = None"
    by (simp add: destructor_def)
  show ?thesis using lost hang by blast
qed

end
